theory Spec2Isabelle
  imports
    Main
    "HOL-Library.Word"
    "HOL-Library.Multiset"
    "HOL-Library.Sublist"
    "HOL-Library.Char_ord"
    "HOL-Library.List_Lexorder"
    "HOL-Library.Product_Lexorder"
begin

section \<open>hoshi: a shallow embedding of main.go\<close>

text \<open>
  The program fetches the pages of a user's starred repositories, shortens the
  descriptions to the terminal width, orders the list and hands it to an interactive
  prompt filtered by a fuzzy matcher. Each function below follows the function of
  \<^verbatim>\<open>main.go\<close> with the same name. Go strings are byte sequences and are
  held as \<^typ>\<open>string\<close>, whose characters are bytes; \<^verbatim>\<open>len\<close> and slicing count
  bytes on both sides.
\<close>

subsection \<open>Data model\<close>

text \<open>
  \<^verbatim>\<open>time.Time\<close> as decoded from JSON: an instant (seconds and nanoseconds) and the zone
  offset it was written with. No monotonic clock reading is attached to a decoded time.
\<close>

record go_time =
  unixSec :: int
  nanos :: int
  zoneOffset :: int

record owner =
  Login :: string

text \<open>
  \<^verbatim>\<open>Star\<close>, restricted to the fields the program reads or shows; the other fields of
  the payload are decoded and never looked at.
\<close>

record star =
  ID :: int
  Name :: string
  FullName :: string
  Owner :: owner
  HTMLURL :: string
  Description :: string
  CreatedAt :: go_time
  UpdatedAt :: go_time
  Homepage :: string
  Language :: string
  StargazersCount :: int

subsection \<open>Page fetching (getStarsPage) and the retrieval loop of run\<close>

text \<open>\<^verbatim>\<open>log.Fatal\<close> prints and ends the process: nothing is returned to the caller.\<close>

datatype fatal = Fatal

text \<open>
  What the remote end sends for one request. \<open>StarArray\<close> is a well-formed JSON array of
  star objects. \<open>Malformed\<close> is any body \<^verbatim>\<open>json.Unmarshal\<close> rejects without storing
  anything: bytes that are not valid JSON (the decoder validates the whole input first),
  among them a body cut short by a read error (\<^verbatim>\<open>ioutil.ReadAll\<close>'s error is discarded
  by the source, so such a body reaches the decoder as the bytes read so far), or a JSON
  value that is not an array, such as the API's error object.
  \<open>GetError\<close> is \<^verbatim>\<open>http.Get\<close> returning an error.
\<close>

datatype payload = StarArray "star list" | Malformed

datatype response = GetError | Body payload

text \<open>
  A Go slice variable is \<open>None\<close> when nil. \<^verbatim>\<open>json.Unmarshal(body, &stars)\<close> on the nil
  slice: the decoded slice and whether an error was returned.
\<close>

definition json_Unmarshal :: "payload \<Rightarrow> star list option \<times> bool" where
  "json_Unmarshal body =
     (case body of StarArray xs \<Rightarrow> (Some xs, False) | Malformed \<Rightarrow> (None, True))"

definition len :: "'a list option \<Rightarrow> nat" where
  "len s = (case s of None \<Rightarrow> 0 | Some xs \<Rightarrow> length xs)"

text \<open>
  \<^verbatim>\<open>getStarsPage\<close>. The first argument answers a request for a user and a page number.
  The error flag of the decoder is dropped, as in the source.
\<close>

definition getStarsPage ::
  "(string \<Rightarrow> nat \<Rightarrow> response) \<Rightarrow> string \<Rightarrow> nat \<Rightarrow> fatal + star list option" where
  "getStarsPage http_Get user page =
     (case http_Get user page of
        GetError \<Rightarrow> Inl Fatal
      | Body body \<Rightarrow>
          (let (stars, _) = json_Unmarshal body
           in if len stars = 0 then Inr None else Inr stars))"

text \<open>
  The loop \<^verbatim>\<open>for i := 1; ; i++\<close> of \<^verbatim>\<open>run\<close>. It has no bound, so not returning is
  the value \<open>None\<close>. Beside the accumulated slice the model keeps the page numbers
  requested so far, in order. The counter is a natural number: a Go \<^verbatim>\<open>int\<close> would
  wrap only after \<open>2 ^ 63\<close> requests.
\<close>

partial_function (option) fetch_loop ::
  "(string \<Rightarrow> nat \<Rightarrow> response) \<Rightarrow> string \<Rightarrow> nat \<Rightarrow> star list \<Rightarrow> nat list
     \<Rightarrow> (fatal + star list \<times> nat list) option" where
  "fetch_loop http_Get user i stars calls =
     (case getStarsPage http_Get user i of
        Inl e \<Rightarrow> Some (Inl e)
      | Inr None \<Rightarrow> Some (Inr (stars, calls @ [i]))
      | Inr (Some s) \<Rightarrow> fetch_loop http_Get user (i + 1) (stars @ s) (calls @ [i]))"

definition aggregate ::
  "(string \<Rightarrow> nat \<Rightarrow> response) \<Rightarrow> string \<Rightarrow> (fatal + star list \<times> nat list) option" where
  "aggregate http_Get user = fetch_loop http_Get user 1 [] []"

subsection \<open>Description truncation (the second loop of run)\<close>

datatype panic = SliceBoundsOutOfRange | IndexOutOfRange

text \<open>\<^verbatim>\<open>s[:hi]\<close>: Go panics unless \<open>0 \<le> hi \<le> len(s)\<close>.\<close>

definition slice_to :: "string \<Rightarrow> int \<Rightarrow> panic + string" where
  "slice_to s hi =
     (if hi < 0 \<or> int (length s) < hi then Inl SliceBoundsOutOfRange
      else Inr (take (nat hi) s))"

text \<open>
  The body of the loop, on one description. \<^verbatim>\<open>terminal.Width()\<close> returns a \<^verbatim>\<open>uint\<close>
  (64 bits); \<^verbatim>\<open>int(terminalWidth)-22\<close> keeps the bits and subtracts with wrap-around,
  so its value is the signed reading of the word difference.
\<close>

definition truncateDescription :: "64 word \<Rightarrow> string \<Rightarrow> panic + string" where
  "truncateDescription terminalWidth d =
     (if int (length d) > sint (terminalWidth - 22)
      then (case slice_to d (sint (terminalWidth - 25)) of
              Inl p \<Rightarrow> Inl p
            | Inr kept \<Rightarrow> Inr (kept @ ''...''))
      else Inr d)"

text \<open>The loop over the stars, first to last; a panic ends it.\<close>

fun truncate_loop :: "64 word \<Rightarrow> star list \<Rightarrow> panic + star list" where
  "truncate_loop terminalWidth [] = Inr []"
| "truncate_loop terminalWidth (s # rest) =
     (case truncateDescription terminalWidth (Description s) of
        Inl p \<Rightarrow> Inl p
      | Inr d \<Rightarrow>
          (case truncate_loop terminalWidth rest of
             Inl p \<Rightarrow> Inl p
           | Inr rest' \<Rightarrow> Inr (s\<lparr>Description := d\<rparr> # rest')))"

definition ends_in_ellipsis :: "string \<Rightarrow> bool" where
  "ends_in_ellipsis s = suffix ''...'' s"

subsection \<open>Ordering (sortItemOrder)\<close>

text \<open>
  The closure \<^verbatim>\<open>reversed\<close>: \<^verbatim>\<open>for i := len(stars)/2 - 1; i >= 0; i--\<close> swaps the
  elements at \<open>i\<close> and \<open>len(stars) - 1 - i\<close>. The first argument of the loop is \<open>i + 1\<close>,
  the number of swaps still to do.
\<close>

fun reversed_loop :: "nat \<Rightarrow> 'a list \<Rightarrow> 'a list" where
  "reversed_loop 0 stars = stars"
| "reversed_loop (Suc i) stars =
     (let j = length stars - 1 - i
      in reversed_loop i (stars[i := stars ! j, j := stars ! i]))"

definition reversed :: "'a list \<Rightarrow> 'a list" where
  "reversed stars = reversed_loop (length stars div 2) stars"

text \<open>
  \<^verbatim>\<open>strings.ToLower\<close> on bytes: the letters \<open>A\<close> to \<open>Z\<close> move to \<open>a\<close> to \<open>z\<close>, every other
  byte stays. This is what Go computes for a string of ASCII bytes, which is what
  account and repository names are; on other strings Go maps each code point by the
  Unicode tables, which this model does not hold.
\<close>

definition toLower_byte :: "char \<Rightarrow> char" where
  "toLower_byte c =
     (if CHR ''A'' \<le> c \<and> c \<le> CHR ''Z'' then char_of (of_char c + (32 :: nat)) else c)"

definition ToLower :: "string \<Rightarrow> string" where
  "ToLower s = map toLower_byte s"

text \<open>
  \<^verbatim>\<open>t.After(u)\<close> for times without a monotonic reading: the instants are compared,
  seconds first, the zone plays no part.
\<close>

definition After :: "go_time \<Rightarrow> go_time \<Rightarrow> bool" where
  "After t u = (unixSec t > unixSec u \<or> (unixSec t = unixSec u \<and> nanos t > nanos u))"

text \<open>
  \<^verbatim>\<open>sortItemOrder\<close>. Its first argument stands for the library's \<^verbatim>\<open>sort.Slice\<close>, which
  is given the slice and the comparison of two of its elements. Go compares strings
  with \<open><\<close> byte by byte, a proper prefix first, which is the order of
  \<^typ>\<open>string\<close> here. A \<^verbatim>\<open>switch\<close> on a string with no matching case does nothing.
\<close>

definition sortItemOrder ::
  "((star \<Rightarrow> star \<Rightarrow> bool) \<Rightarrow> star list \<Rightarrow> star list) \<Rightarrow> star list \<Rightarrow> string \<Rightarrow> bool
     \<Rightarrow> star list" where
  "sortItemOrder sort_Slice stars order reverse =
     (let sorted_stars =
        (if order = ''added-at'' then stars
         else if order = ''author-name'' then
           sort_Slice (\<lambda>a b. ToLower (Login (Owner a)) < ToLower (Login (Owner b))) stars
         else if order = ''created-at'' then
           sort_Slice (\<lambda>a b. After (CreatedAt a) (CreatedAt b)) stars
         else if order = ''repository-name'' then
           sort_Slice (\<lambda>a b. ToLower (Name a) < ToLower (Name b)) stars
         else if order = ''updated-at'' then
           sort_Slice (\<lambda>a b. After (UpdatedAt a) (UpdatedAt b)) stars
         else stars)
      in if reverse then reversed sorted_stars else sorted_stars)"

text \<open>
  What the documentation of Go's \<^verbatim>\<open>sort\<close> package promises of \<^verbatim>\<open>sort.Slice\<close>: the
  slice is rearranged by swaps, so the result holds the same elements; and when the
  comparison is a transitive ordering (irreflexive, transitive, and with a transitive
  complement) the result is sorted by it: no element is less than one before it. The
  documentation adds that the sort is not guaranteed to be stable, so nothing is said
  about the order of elements neither of which is less than the other.
\<close>

definition transitive_ordering :: "('a \<Rightarrow> 'a \<Rightarrow> bool) \<Rightarrow> bool" where
  "transitive_ordering lt =
     ((\<forall>a. \<not> lt a a) \<and>
      (\<forall>a b c. lt a b \<and> lt b c \<longrightarrow> lt a c) \<and>
      (\<forall>a b c. \<not> lt a b \<and> \<not> lt b c \<longrightarrow> \<not> lt a c))"

definition sort_Slice_contract ::
  "((star \<Rightarrow> star \<Rightarrow> bool) \<Rightarrow> star list \<Rightarrow> star list) \<Rightarrow> bool" where
  "sort_Slice_contract sort_Slice =
     (\<forall>lt xs.
        mset (sort_Slice lt xs) = mset xs \<and>
        (transitive_ordering lt \<longrightarrow> sorted_wrt (\<lambda>a b. \<not> lt b a) (sort_Slice lt xs)))"

text \<open>
  One function that meets the contract: what \<^verbatim>\<open>sort.Slice\<close> runs on a slice of at most
  twelve elements in the releases of Go up to 1.18 (\<^verbatim>\<open>quickSort_func\<close> below its
  threshold): one pass comparing the elements six apart, then an insertion sort.

  \<^verbatim>\<open>insertionSort_func\<close> moves each element left while it is less than its left
  neighbour. \<open>sift\<close> does this for one element; its list argument is the part left
  of the element, nearest neighbour first, and so is its result.
\<close>

fun sift :: "('a \<Rightarrow> 'a \<Rightarrow> bool) \<Rightarrow> 'a \<Rightarrow> 'a list \<Rightarrow> 'a list" where
  "sift lt x [] = [x]"
| "sift lt x (y # ys) = (if lt x y then y # sift lt x ys else x # y # ys)"

definition insertionSort_func :: "('a \<Rightarrow> 'a \<Rightarrow> bool) \<Rightarrow> 'a list \<Rightarrow> 'a list" where
  "insertionSort_func lt xs = rev (foldl (\<lambda>left x. sift lt x left) [] xs)"

definition gap_step :: "('a \<Rightarrow> 'a \<Rightarrow> bool) \<Rightarrow> nat \<Rightarrow> 'a list \<Rightarrow> 'a list" where
  "gap_step lt i xs =
     (if lt (xs ! i) (xs ! (i - 6)) then xs[i := xs ! (i - 6), i - 6 := xs ! i] else xs)"

definition gap_pass :: "('a \<Rightarrow> 'a \<Rightarrow> bool) \<Rightarrow> 'a list \<Rightarrow> 'a list" where
  "gap_pass lt xs = fold (gap_step lt) [6..<length xs] xs"

definition sort_short :: "('a \<Rightarrow> 'a \<Rightarrow> bool) \<Rightarrow> 'a list \<Rightarrow> 'a list" where
  "sort_short lt xs =
     (if length xs > 1 then insertionSort_func lt (gap_pass lt xs) else xs)"


text \<open>
  Stability in the words of the specification: records with equal keys stand in the
  output in the order they have in the input. For every key value, the records with
  that value form the same sequence on both sides.
\<close>

definition keeps_order_of_ties :: "('a \<Rightarrow> 'k) \<Rightarrow> 'a list \<Rightarrow> 'a list \<Rightarrow> bool" where
  "keeps_order_of_ties key input output =
     (\<forall>k. filter (\<lambda>x. key x = k) output = filter (\<lambda>x. key x = k) input)"

subsection \<open>Fuzzy matching (the searcher closure of run)\<close>









subsection \<open>The path of run from the user name to the prompt\<close>

text \<open>
  \<^verbatim>\<open>run\<close> after the flags are parsed, up to the list it gives the prompt: the user
  name (\<open>None\<close> when \<^verbatim>\<open>gitconfig.GithubUser\<close> fails), the retrieval loop, the terminal
  width (\<open>None\<close> when \<^verbatim>\<open>terminal.Width\<close> fails, and \<^verbatim>\<open>run\<close> returns 1), the
  truncation loop and the ordering. The result is \<open>None\<close> when the retrieval loop does
  not return.
\<close>

datatype outcome = LogFatal | Return int | Panic panic | PromptItems "star list"

definition run_items ::
  "((star \<Rightarrow> star \<Rightarrow> bool) \<Rightarrow> star list \<Rightarrow> star list) \<Rightarrow> (string \<Rightarrow> nat \<Rightarrow> response)
     \<Rightarrow> string option \<Rightarrow> 64 word option \<Rightarrow> string \<Rightarrow> bool \<Rightarrow> outcome option" where
  "run_items sort_Slice http_Get githubUser width order reverse =
     (case githubUser of
        None \<Rightarrow> Some LogFatal
      | Some user \<Rightarrow>
          (case aggregate http_Get user of
             None \<Rightarrow> None
           | Some (Inl e) \<Rightarrow> Some LogFatal
           | Some (Inr (stars, calls)) \<Rightarrow>
               (case width of
                  None \<Rightarrow> Some (Return 1)
                | Some terminalWidth \<Rightarrow>
                    (case truncate_loop terminalWidth stars of
                       Inl p \<Rightarrow> Some (Panic p)
                     | Inr shortened \<Rightarrow>
                         Some (PromptItems (sortItemOrder sort_Slice shortened order reverse))))))"

subsection \<open>Sample data\<close>

definition mk_star :: "int \<Rightarrow> string \<Rightarrow> string \<Rightarrow> string \<Rightarrow> int \<Rightarrow> int \<Rightarrow> star" where
  "mk_star n login name descr created updated =
     \<lparr>ID = n, Name = name, FullName = login @ ''/'' @ name, Owner = \<lparr>Login = login\<rparr>,
      HTMLURL = ''https://github.com/'' @ login @ ''/'' @ name, Description = descr,
      CreatedAt = \<lparr>unixSec = created, nanos = 0, zoneOffset = 0\<rparr>,
      UpdatedAt = \<lparr>unixSec = updated, nanos = 0, zoneOffset = 0\<rparr>,
      Homepage = [], Language = ''Go'', StargazersCount = 0\<rparr>"

definition star_foo :: star where
  "star_foo = mk_star 1 ''octo'' ''foo'' ''first'' 100 400"

definition star_bar :: star where
  "star_bar = mk_star 2 ''octo'' ''bar'' ''second'' 300 500"

definition star_baz :: star where
  "star_baz = mk_star 3 ''acme'' ''baz'' ''third'' 200 600"

definition three_stars :: "star list" where
  "three_stars = [star_foo, star_bar, star_baz]"

text \<open>Three pages: one star, two stars, then the empty page.\<close>

definition three_pages :: "string \<Rightarrow> nat \<Rightarrow> response" where
  "three_pages user page =
     (if page = 1 then Body (StarArray [star_foo])
      else if page = 2 then Body (StarArray [star_bar, star_baz])
      else Body (StarArray []))"

text \<open>
  The second of three answers is not a JSON array (the API's rate-limit object, or a body
  cut short); a third page with more stars exists.
\<close>

definition broken_second_page :: "string \<Rightarrow> nat \<Rightarrow> response" where
  "broken_second_page user page =
     (if page = 1 then Body (StarArray [star_foo])
      else if page = 2 then Body Malformed
      else if page = 3 then Body (StarArray [star_bar, star_baz])
      else Body (StarArray []))"

text \<open>
  Seven stars in the order fetched. The owners of the first two differ in case only, so
  the two have the same key under \<open>author-name\<close>.
\<close>

definition seven_stars :: "star list" where
  "seven_stars =
     [mk_star 1 ''bob'' ''one'' [] 0 0, mk_star 2 ''Bob'' ''two'' [] 0 0,
      mk_star 3 ''carol'' ''three'' [] 0 0, mk_star 4 ''carol'' ''four'' [] 0 0,
      mk_star 5 ''carol'' ''five'' [] 0 0, mk_star 6 ''carol'' ''six'' [] 0 0,
      mk_star 7 ''alice'' ''seven'' [] 0 0]"

section \<open>Retrieval\<close>

lemma getStarsPage_page:
  "http_Get user k = Body (StarArray s) \<Longrightarrow> s \<noteq> [] \<Longrightarrow>
     getStarsPage http_Get user k = Inr (Some s)"
  by (simp add: getStarsPage_def json_Unmarshal_def len_def)

lemma getStarsPage_empty:
  "http_Get user k = Body (StarArray []) \<Longrightarrow> getStarsPage http_Get user k = Inr None"
  by (simp add: getStarsPage_def json_Unmarshal_def len_def)

lemma getStarsPage_malformed:
  "http_Get user k = Body Malformed \<Longrightarrow> getStarsPage http_Get user k = Inr None"
  by (simp add: getStarsPage_def json_Unmarshal_def len_def)

lemma getStarsPage_error:
  "http_Get user k = GetError \<Longrightarrow> getStarsPage http_Get user k = Inl Fatal"
  by (simp add: getStarsPage_def)

text \<open>
  The loop entered at page \<open>i\<close>, when the pages from \<open>i\<close> up to \<open>N\<close> are non-empty and
  \<open>getStarsPage\<close> returns nil for page \<open>N\<close>: it returns, having appended those pages
  and requested \<open>i\<close> to \<open>N\<close>.
\<close>

lemma fetch_loop_pages:
  assumes pages:
      "\<And>k. i \<le> k \<Longrightarrow> k < N \<Longrightarrow> http_Get user k = Body (StarArray (p k)) \<and> p k \<noteq> []"
    and last: "getStarsPage http_Get user N = Inr None"
    and le: "i \<le> N"
  shows "fetch_loop http_Get user i acc calls
           = Some (Inr (acc @ concat (map p [i..<N]), calls @ [i..<Suc N]))"
  using pages le
proof (induction "N - i" arbitrary: i acc calls)
  case 0
  then have "i = N" by simp
  then show ?case
    using last by (subst fetch_loop.simps) simp
next
  case (Suc d)
  then have lt: "i < N" by simp
  have here: "getStarsPage http_Get user i = Inr (Some (p i))"
    using Suc.prems(1) [of i] lt by (simp add: getStarsPage_page)
  have rest: "fetch_loop http_Get user (i + 1) (acc @ p i) (calls @ [i])
           = Some (Inr ((acc @ p i) @ concat (map p [i + 1..<N]),
                        (calls @ [i]) @ [i + 1..<Suc N]))"
    using Suc.hyps(2) Suc.prems(1) lt by (intro Suc.hyps(1)) auto
  have "[i..<N] = i # [i + 1..<N]" "[i..<Suc N] = i # [i + 1..<Suc N]"
    using lt by (simp_all add: upt_conv_Cons)
  then show ?case
    using here rest by (subst fetch_loop.simps) simp
qed

text \<open>
  Claim C4. Let the answers to the requests for pages \<open>1\<close> to \<open>N - 1\<close> be non-empty arrays
  \<open>p 1\<close>, ..., \<open>p (N - 1)\<close> and the answer for page \<open>N\<close> the empty array. Then the retrieval
  loop returns, its result is \<open>p 1 @ ... @ p (N - 1)\<close> in page order, and the requests it
  made are exactly those for the pages \<open>1, 2, ..., N\<close>, in this order: \<open>N\<close> calls.
\<close>

theorem aggregate_pages:
  assumes "1 \<le> N"
    and "\<forall>k. 1 \<le> k \<and> k < N \<longrightarrow> http_Get user k = Body (StarArray (p k)) \<and> p k \<noteq> []"
    and "http_Get user N = Body (StarArray [])"
  shows "aggregate http_Get user = Some (Inr (concat (map p [1..<N]), [1..<Suc N]))"
  using fetch_loop_pages [of 1 N http_Get user p "[]" "[]"] assms
    getStarsPage_empty [of http_Get user N]
  by (simp add: aggregate_def)

theorem aggregate_pages_witness:
  "aggregate three_pages ''octo''
     = Some (Inr ([star_foo, star_bar, star_baz], [1, 2, 3]))"
proof -
  let ?p = "\<lambda>k. if k = Suc 0 then [star_foo] else [star_bar, star_baz]"
  have pages: "\<forall>k. 1 \<le> k \<and> k < 3 \<longrightarrow>
      three_pages ''octo'' k = Body (StarArray (?p k)) \<and> ?p k \<noteq> []"
    by (simp add: three_pages_def)
  have last: "three_pages ''octo'' 3 = Body (StarArray [])"
    by (simp add: three_pages_def)
  have upt: "[Suc 0..<3] = [Suc 0, 2]" "[Suc 0..<4] = [Suc 0, 2, 3]"
    by (simp_all add: upt_rec)
  show ?thesis
    using aggregate_pages [of 3 three_pages "''octo''" ?p, OF _ pages last]
    by (simp add: upt)
qed

text \<open>
  Claim C1 asks that a body which cannot be decoded ends the run. The code does not do
  that: the decoder's error is dropped, the page counts as empty, and the loop returns
  what it has. Here the second answer is malformed and a third page exists; the loop
  returns the first page alone after two requests, and the prompt is given that list.
\<close>

theorem run_shows_partial_list:
  "aggregate broken_second_page ''octo'' = Some (Inr ([star_foo], [1, 2])) \<and>
   getStarsPage broken_second_page ''octo'' 3 = Inr (Some [star_bar, star_baz]) \<and>
   run_items sort_short broken_second_page (Some ''octo'') (Some 80) [] False
     = Some (PromptItems [star_foo])"
proof -
  have page1: "getStarsPage broken_second_page ''octo'' 1 = Inr (Some [star_foo])"
    by (simp add: getStarsPage_page broken_second_page_def)
  have page2: "getStarsPage broken_second_page ''octo'' 2 = Inr None"
    by (simp add: getStarsPage_malformed broken_second_page_def)
  have page3: "getStarsPage broken_second_page ''octo'' 3 = Inr (Some [star_bar, star_baz])"
    by (simp add: getStarsPage_page broken_second_page_def)
  have "fetch_loop broken_second_page ''octo'' 2 [star_foo] [1] = Some (Inr ([star_foo], [1, 2]))"
    using page2 by (subst fetch_loop.simps) simp
  then have loop: "aggregate broken_second_page ''octo'' = Some (Inr ([star_foo], [1, 2]))"
    unfolding aggregate_def using page1
    by (subst fetch_loop.simps) (simp add: eval_nat_numeral)
  have "truncate_loop 80 [star_foo] = Inr [star_foo]"
    by (simp add: truncateDescription_def star_foo_def mk_star_def)
  then have "run_items sort_short broken_second_page (Some ''octo'') (Some 80) [] False
      = Some (PromptItems [star_foo])"
    using loop by (simp add: run_items_def sortItemOrder_def)
  with loop page3 show ?thesis by simp
qed

text \<open>
  The same on every run: when the answer for page \<open>N\<close> cannot be decoded, the loop
  returns the pages before it as if they were all there are.
\<close>

lemma aggregate_stops_at_malformed:
  assumes "1 \<le> N"
    and "\<And>k. 1 \<le> k \<Longrightarrow> k < N \<Longrightarrow> http_Get user k = Body (StarArray (p k)) \<and> p k \<noteq> []"
    and "http_Get user N = Body Malformed"
  shows "aggregate http_Get user = Some (Inr (concat (map p [1..<N]), [1..<Suc N]))"
  using fetch_loop_pages [of 1 N http_Get user p "[]" "[]"] assms
    getStarsPage_malformed [of http_Get user N]
  by (simp add: aggregate_def)

text \<open>
  A failing \<^verbatim>\<open>http.Get\<close>, on the other hand, does end the run, on whichever page the
  loop meets it.
\<close>

lemma fetch_loop_GetError:
  "http_Get user i = GetError \<Longrightarrow> fetch_loop http_Get user i acc calls = Some (Inl Fatal)"
  by (subst fetch_loop.simps) (simp add: getStarsPage_error)

section \<open>Truncation\<close>

lemma sint_minus_22:
  fixes w :: "64 word"
  assumes "22 \<le> sint w"
  shows "sint (w - 22) = sint w - 22"
proof -
  have "sint w < 2 ^ 63" using sint_lt [of w] by simp
  then have "signed_take_bit 63 (sint w - 22) = sint w - 22"
    using assms by (intro signed_take_bit_int_eq_self) simp_all
  then show ?thesis by (simp add: sint_word_diff)
qed

lemma sint_minus_25:
  fixes w :: "64 word"
  assumes "22 \<le> sint w"
  shows "sint (w - 25) = sint w - 25"
proof -
  have "sint w < 2 ^ 63" using sint_lt [of w] by simp
  then have "signed_take_bit 63 (sint w - 25) = sint w - 25"
    using assms by (intro signed_take_bit_int_eq_self) simp_all
  then show ?thesis by (simp add: sint_word_diff)
qed

lemma truncate_unchanged:
  assumes "int (length d) \<le> sint w - 22"
  shows "truncateDescription w d = Inr d"
proof -
  have "22 \<le> sint w" using assms by linarith
  then show ?thesis using assms by (simp add: truncateDescription_def sint_minus_22)
qed

lemma truncate_cut:
  assumes "25 \<le> sint w" and "int (length d) > sint w - 22"
  shows "truncateDescription w d = Inr (take (nat (sint w - 25)) d @ ''...'')"
  using assms
  by (simp add: truncateDescription_def sint_minus_22 sint_minus_25 slice_to_def)

text \<open>
  Claim C2 asks that the truncation never fails, whatever the width. The code fails on
  a narrow terminal: with 20 columns the test \<open>len > 20 - 22\<close> holds for every
  description, the empty one included, and the slice bound \<open>20 - 25\<close> is negative, so
  \<^verbatim>\<open>run\<close> panics on the first star.
\<close>

theorem truncate_narrow_panics:
  "truncateDescription 20 [] = Inl SliceBoundsOutOfRange \<and>
   truncateDescription 24 ''abc'' = Inl SliceBoundsOutOfRange \<and>
   run_items sort_short three_pages (Some ''octo'') (Some 20) [] False
     = Some (Panic SliceBoundsOutOfRange)"
proof -
  have narrow: "truncateDescription 20 d = Inl SliceBoundsOutOfRange" for d
    by (simp add: truncateDescription_def slice_to_def)
  have "getStarsPage three_pages ''octo'' 3 = Inr None"
    by (simp add: getStarsPage_empty three_pages_def)
  then have "aggregate three_pages ''octo'' = Some (Inr (three_stars, [1, 2, 3]))"
    using fetch_loop_pages [of 1 3 three_pages "''octo''"
        "\<lambda>k. if k = Suc 0 then [star_foo] else [star_bar, star_baz]" "[]" "[]"]
    by (simp add: aggregate_def three_pages_def three_stars_def upt_rec)
  then have "run_items sort_short three_pages (Some ''octo'') (Some 20) [] False
      = Some (Panic SliceBoundsOutOfRange)"
    by (simp add: run_items_def three_stars_def narrow)
  moreover have "truncateDescription 24 ''abc'' = Inl SliceBoundsOutOfRange"
    by (simp add: truncateDescription_def slice_to_def)
  ultimately show ?thesis using narrow [of "[]"] by simp
qed

text \<open>
  Claim C5 as stated says that the result ends in the ellipsis marker exactly when the
  description was cut. A description that already ends in three dots and fits the width
  is returned as it is: it ends in the marker and was not cut.
\<close>

theorem ellipsis_without_truncation:
  "\<not> int (length ''wip...'') > sint (80 :: 64 word) - 22 \<and>
   truncateDescription 80 ''wip...'' = Inr ''wip...'' \<and>
   ends_in_ellipsis ''wip...''"
  by (simp add: truncateDescription_def ends_in_ellipsis_def suffix_def)

text \<open>
  Claim C5, amended. Write \<open>W\<close> for the width as the code converts it, \<open>sint w\<close>, and
  \<open>L\<close> for the length of the description. If \<open>L \<le> W - 22\<close> the description is returned
  unchanged, for every width. If \<open>W \<ge> 25\<close> and \<open>L > W - 22\<close>, the result is the first
  \<open>W - 25\<close> bytes of the description followed by the marker, its length is \<open>W - 22\<close>, and
  it ends in the marker. (Widths below 25 with \<open>L > W - 22\<close> are the subject of C2.)
\<close>

theorem truncate_boundary:
  "(int (length d) \<le> sint w - 22 \<longrightarrow> truncateDescription w d = Inr d) \<and>
   (25 \<le> sint w \<and> int (length d) > sint w - 22 \<longrightarrow>
      (\<exists>out. truncateDescription w d = Inr out \<and>
         out = take (nat (sint w - 25)) d @ ''...'' \<and>
         int (length out) = sint w - 22 \<and> ends_in_ellipsis out))"
  using truncate_unchanged [of d w] truncate_cut [of w d]
  by (auto simp: ends_in_ellipsis_def suffix_def)

theorem truncate_boundary_witness:
  "int (length ''short'') \<le> sint (30 :: 64 word) - 22 \<and>
   truncateDescription 30 ''short'' = Inr ''short'' \<and>
   25 \<le> sint (30 :: 64 word) \<and> int (length ''0123456789'') > sint (30 :: 64 word) - 22 \<and>
   truncateDescription 30 ''0123456789'' = Inr ''01234...'' \<and>
   int (length ''01234...'') = sint (30 :: 64 word) - 22 \<and> ends_in_ellipsis ''01234...''"
  using truncate_boundary [of "''short''" 30] truncate_boundary [of "''0123456789''" 30]
  by simp

section \<open>Ordering\<close>

subsection \<open>The reversal loop reverses\<close>

lemma length_reversed_loop: "length (reversed_loop n xs) = length xs"
  by (induction n arbitrary: xs) (simp_all add: Let_def)

text \<open>
  After the swaps for \<open>i = n - 1, ..., 0\<close> the first \<open>n\<close> and the last \<open>n\<close> positions hold
  the mirrored elements and the middle is untouched.
\<close>

lemma reversed_loop_nth:
  "n \<le> length xs div 2 \<Longrightarrow> k < length xs \<Longrightarrow>
     reversed_loop n xs ! k =
       (if k < n \<or> length xs - n \<le> k then xs ! (length xs - 1 - k) else xs ! k)"
proof (induction n arbitrary: xs)
  case 0
  then show ?case by simp
next
  case (Suc n)
  let ?j = "length xs - 1 - n"
  let ?ys = "xs[n := xs ! ?j, ?j := xs ! n]"
  have n_j: "n < ?j" "?j < length xs" using Suc.prems by linarith+
  have step: "reversed_loop n ?ys ! k =
      (if k < n \<or> length xs - n \<le> k then ?ys ! (length xs - 1 - k) else ?ys ! k)"
    using Suc.IH [of ?ys] Suc.prems by simp
  have "reversed_loop (Suc n) xs ! k = reversed_loop n ?ys ! k"
    by (simp add: Let_def)
  also have "\<dots> =
      (if k < Suc n \<or> length xs - Suc n \<le> k then xs ! (length xs - 1 - k) else xs ! k)"
    unfolding step using n_j Suc.prems(2)
    by (auto simp: nth_list_update)
  finally show ?case .
qed

lemma reversed_rev: "reversed xs = rev xs"
proof (rule nth_equalityI)
  show "length (reversed xs) = length (rev xs)"
    by (simp add: reversed_def length_reversed_loop)
next
  fix k assume "k < length (reversed xs)"
  then have k: "k < length xs" by (simp add: reversed_def length_reversed_loop)
  have "reversed xs ! k = xs ! (length xs - 1 - k)"
  proof (cases "k < length xs div 2 \<or> length xs - length xs div 2 \<le> k")
    case True
    then show ?thesis using k by (simp add: reversed_def reversed_loop_nth)
  next
    case False
    then have "length xs - 1 - k = k" using k by linarith
    then show ?thesis using False k by (simp add: reversed_def reversed_loop_nth)
  qed
  then show "reversed xs ! k = rev xs ! k" using k by (simp add: rev_nth)
qed

subsection \<open>The short-slice routine meets the contract of sort.Slice\<close>

lemma mset_sift: "mset (sift lt x ys) = add_mset x (mset ys)"
  by (induction ys) simp_all

lemma set_sift: "set (sift lt x ys) = insert x (set ys)"
  using mset_sift [of lt x ys] by (metis set_mset_mset set_mset_add_mset_insert)

lemma mset_foldl_sift:
  "mset (foldl (\<lambda>left x. sift lt x left) acc xs) = mset acc + mset xs"
  by (induction xs arbitrary: acc) (simp_all add: mset_sift)

lemma mset_insertionSort_func: "mset (insertionSort_func lt xs) = mset xs"
  by (simp add: insertionSort_func_def mset_foldl_sift)

lemma gap_step_length: "length (gap_step lt i xs) = length xs"
  by (simp add: gap_step_def)

lemma mset_gap_step: "i < length xs \<Longrightarrow> mset (gap_step lt i xs) = mset xs"
  by (simp add: gap_step_def mset_swap)

lemma fold_gap_step:
  "\<forall>i \<in> set is. i < length xs \<Longrightarrow>
     length (fold (gap_step lt) is xs) = length xs \<and>
     mset (fold (gap_step lt) is xs) = mset xs"
  by (induction "is" arbitrary: xs) (simp_all add: gap_step_length mset_gap_step)

lemma mset_gap_pass: "mset (gap_pass lt xs) = mset xs"
  by (simp add: gap_pass_def fold_gap_step)

lemma mset_sort_short: "mset (sort_short lt xs) = mset xs"
  by (simp add: sort_short_def mset_insertionSort_func mset_gap_pass)

text \<open>
  The part left of the element being placed is sorted, read from right to left; placing
  one more element keeps it so.
\<close>

lemma sorted_sift:
  assumes "transitive_ordering lt" and "sorted_wrt (\<lambda>a b. \<not> lt a b) ys"
  shows "sorted_wrt (\<lambda>a b. \<not> lt a b) (sift lt x ys)"
  using assms(2)
proof (induction ys)
  case Nil
  then show ?case by simp
next
  case (Cons y ys)
  have asym: "\<And>a b. lt a b \<Longrightarrow> \<not> lt b a"
    using assms(1) unfolding transitive_ordering_def by blast
  have ntrans: "\<And>a b c. \<not> lt a b \<Longrightarrow> \<not> lt b c \<Longrightarrow> \<not> lt a c"
    using assms(1) unfolding transitive_ordering_def by blast
  show ?case
  proof (cases "lt x y")
    case True
    then show ?thesis using Cons asym by (auto simp: set_sift)
  next
    case False
    then show ?thesis using Cons ntrans by auto
  qed
qed

lemma sorted_foldl_sift:
  assumes "transitive_ordering lt" and "sorted_wrt (\<lambda>a b. \<not> lt a b) acc"
  shows "sorted_wrt (\<lambda>a b. \<not> lt a b) (foldl (\<lambda>left x. sift lt x left) acc xs)"
  using assms(2)
  by (induction xs arbitrary: acc) (simp_all add: sorted_sift [OF assms(1)])

lemma sorted_insertionSort_func:
  "transitive_ordering lt \<Longrightarrow> sorted_wrt (\<lambda>a b. \<not> lt b a) (insertionSort_func lt xs)"
  using sorted_foldl_sift [of lt "[]" xs]
  by (simp add: insertionSort_func_def sorted_wrt_rev)

lemma sorted_sort_short:
  assumes "transitive_ordering lt"
  shows "sorted_wrt (\<lambda>a b. \<not> lt b a) (sort_short lt xs)"
proof (cases "length xs > 1")
  case True
  then show ?thesis by (simp add: sort_short_def sorted_insertionSort_func [OF assms])
next
  case False
  then have "xs = [] \<or> (\<exists>x. xs = [x])" by (cases xs) auto
  then show ?thesis by (auto simp: sort_short_def)
qed

lemma sort_short_contract: "sort_Slice_contract sort_short"
  by (simp add: sort_Slice_contract_def mset_sort_short sorted_sort_short)

subsection \<open>The comparisons of sortItemOrder\<close>





lemma sortItemOrder_no_reverse:
  "sortItemOrder srt stars order False =
     (if order = ''added-at'' then stars
      else if order = ''author-name'' then
        srt (\<lambda>a b. ToLower (Login (Owner a)) < ToLower (Login (Owner b))) stars
      else if order = ''created-at'' then
        srt (\<lambda>a b. After (CreatedAt a) (CreatedAt b)) stars
      else if order = ''repository-name'' then
        srt (\<lambda>a b. ToLower (Name a) < ToLower (Name b)) stars
      else if order = ''updated-at'' then
        srt (\<lambda>a b. After (UpdatedAt a) (UpdatedAt b)) stars
      else stars)"
  by (simp add: sortItemOrder_def)

lemma sortItemOrder_reverse:
  "sortItemOrder srt stars order True = rev (sortItemOrder srt stars order False)"
  by (simp add: sortItemOrder_def reversed_rev Let_def)

lemma mset_sortItemOrder_no_reverse:
  "sort_Slice_contract srt \<Longrightarrow> mset (sortItemOrder srt stars order False) = mset stars"
  by (simp add: sortItemOrder_no_reverse sort_Slice_contract_def)

text \<open>The sample lists, ordered by the short-slice routine.\<close>

lemma three_stars_sorted:
  "map ID (sortItemOrder sort_short three_stars ''author-name'' False) = [3, 1, 2]"
  "map ID (sortItemOrder sort_short three_stars ''created-at'' False) = [2, 3, 1]"
  "map ID (sortItemOrder sort_short three_stars ''updated-at'' False) = [3, 2, 1]"
  "map ID (sortItemOrder sort_short three_stars ''repository-name'' False) = [2, 3, 1]"
  "map ID (sortItemOrder sort_short three_stars ''created-at'' True) = [1, 3, 2]"
  by code_simp+

lemma seven_stars_sorted:
  "map ID seven_stars = [1, 2, 3, 4, 5, 6, 7]"
  "map ID (sortItemOrder sort_short seven_stars ''author-name'' False) = [7, 2, 1, 3, 4, 5, 6]"
  by code_simp+

subsection \<open>Claims about sortItemOrder\<close>

text \<open>
  Claim C10. For every input list, every sort-key string, recognised or not, and either
  value of the reversal flag, the output of \<open>sortItemOrder\<close> is a permutation of the
  input: the same records with the same multiplicities. The library sort is any
  function within the contract of \<^verbatim>\<open>sort.Slice\<close>.
\<close>

theorem sortItemOrder_permutes:
  assumes "sort_Slice_contract sort_Slice"
  shows "mset (sortItemOrder sort_Slice stars order reverse) = mset stars"
proof (cases reverse)
  case True
  then show ?thesis
    using mset_sortItemOrder_no_reverse [OF assms] by (simp add: sortItemOrder_reverse)
next
  case False
  then show ?thesis using mset_sortItemOrder_no_reverse [OF assms] by simp
qed

theorem sortItemOrder_permutes_witness:
  "sort_Slice_contract sort_short \<and>
   map ID (sortItemOrder sort_short three_stars ''created-at'' True) = [1, 3, 2] \<and>
   mset (sortItemOrder sort_short three_stars ''created-at'' True) = mset three_stars"
  using sortItemOrder_permutes [OF sort_short_contract, of three_stars "''created-at''" True]
    sort_short_contract three_stars_sorted(5)
  by simp

text \<open>
  Claim C6. For every list and every sort key, sorting with the reversal flag set gives
  the reverse of sorting without it; and for the key \<open>added-at\<close>, reversing twice gives
  back the order fetched. This holds whatever the library sort does.
\<close>

theorem sortItemOrder_reversal:
  "sortItemOrder sort_Slice stars order True
     = rev (sortItemOrder sort_Slice stars order False) \<and>
   sortItemOrder sort_Slice (sortItemOrder sort_Slice stars ''added-at'' True) ''added-at'' True
     = stars"
  by (simp add: sortItemOrder_reverse sortItemOrder_no_reverse)



text \<open>
  Claim C3 as stated says that records with equal keys keep their order, for every
  supported key. \<^verbatim>\<open>sort.Slice\<close> does not promise that, and the short-slice routine,
  which is within its contract, does not do it: on the seven sample stars ordered by
  \<open>author-name\<close> the pass with gap six swaps the first and the last, and the insertion
  sort then stops the first star (owner \<open>bob\<close>) behind the second (owner \<open>Bob\<close>).
\<close>

theorem sortItemOrder_not_stable:
  "sort_Slice_contract sort_short \<and>
   map ID seven_stars = [1, 2, 3, 4, 5, 6, 7] \<and>
   map ID (sortItemOrder sort_short seven_stars ''author-name'' False) = [7, 2, 1, 3, 4, 5, 6] \<and>
   \<not> keeps_order_of_ties (\<lambda>s. ToLower (Login (Owner s))) seven_stars
       (sortItemOrder sort_short seven_stars ''author-name'' False)"
proof -
  let ?out = "sortItemOrder sort_short seven_stars ''author-name'' False"
  let ?tie = "\<lambda>s. ToLower (Login (Owner s)) = ''bob''"
  have "map ID (filter ?tie seven_stars) = [1, 2]"
    by code_simp
  moreover have "map ID (filter ?tie ?out) = [2, 1]"
    by code_simp
  ultimately have "filter ?tie ?out \<noteq> filter ?tie seven_stars"
    by auto
  then have "\<not> keeps_order_of_ties (\<lambda>s. ToLower (Login (Owner s))) seven_stars ?out"
    unfolding keeps_order_of_ties_def by blast
  then show ?thesis
    using sort_short_contract seven_stars_sorted by simp
qed

text \<open>
  Claim C3, amended. For every key string and every key function, the records that
  share a key value are the same in the output as in the input, with the same
  multiplicities; and for \<open>added-at\<close>, where nothing is sorted, they also keep their
  order. For the four keys that sort, their order is whatever the library sort leaves.
\<close>

theorem sortItemOrder_ties:
  assumes "sort_Slice_contract sort_Slice"
  shows "mset (filter (\<lambda>s. key s = k) (sortItemOrder sort_Slice stars order False))
           = mset (filter (\<lambda>s. key s = k) stars) \<and>
         keeps_order_of_ties key stars (sortItemOrder sort_Slice stars ''added-at'' False)"
proof -
  let ?out = "sortItemOrder sort_Slice stars order False"
  have "mset ?out = mset stars"
    by (rule mset_sortItemOrder_no_reverse [OF assms])
  then have "filter_mset (\<lambda>s. key s = k) (mset ?out) = filter_mset (\<lambda>s. key s = k) (mset stars)"
    by simp
  then have ties: "mset (filter (\<lambda>s. key s = k) ?out) = mset (filter (\<lambda>s. key s = k) stars)"
    by (simp only: mset_filter)
  have "keeps_order_of_ties key stars (sortItemOrder sort_Slice stars ''added-at'' False)"
    by (simp add: keeps_order_of_ties_def sortItemOrder_no_reverse)
  with ties show ?thesis by simp
qed

theorem sortItemOrder_ties_witness:
  "sort_Slice_contract sort_short \<and>
   mset (filter (\<lambda>s. ToLower (Login (Owner s)) = ''bob'')
          (sortItemOrder sort_short seven_stars ''author-name'' False))
     = mset (filter (\<lambda>s. ToLower (Login (Owner s)) = ''bob'') seven_stars) \<and>
   keeps_order_of_ties (\<lambda>s. ToLower (Login (Owner s))) seven_stars
     (sortItemOrder sort_short seven_stars ''added-at'' False)"
  using sortItemOrder_ties [OF sort_short_contract,
      of "\<lambda>s. ToLower (Login (Owner s))" "''bob''" seven_stars "''author-name''"]
    sort_short_contract
  by simp

section \<open>Fuzzy matching\<close>












end
